theory Spec2Isabelle
  imports Main
begin

section \<open>The driver package: \<^verbatim>\<open>driver/driver.go\<close>\<close>

text \<open>
  The Go package \<^verbatim>\<open>chdbdriver\<close> adapts the embedded engine to the
  \<^verbatim>\<open>database/sql/driver\<close> contract. This section embeds the functions of
  \<^verbatim>\<open>driver.go\<close> one by one. Go strings and byte slices are byte sequences, so both
  are \<^typ>\<open>string\<close> here; a Go \<^verbatim>\<open>error\<close> is the value \<open>Errorf msg\<close>, whose
  method \<^verbatim>\<open>Error()\<close> gives back the message.
\<close>

subsection \<open>Errors, results and effects\<close>

type_synonym bytes = string

datatype error = Errorf string

fun Error :: "error \<Rightarrow> string" where
  "Error (Errorf msg) = msg"

text \<open>
  A Go call returns a value, returns a non-nil error, or panics. The panic that the
  model represents is the call of a nil \<^verbatim>\<open>QueryFun\<close>; what happens inside the
  library calls is not part of \<^verbatim>\<open>driver.go\<close>.
\<close>

datatype 'a result = Ok 'a | Err error | Panic

text \<open>
  The two container libraries are opened on the result buffer; every such call is
  recorded, in order, so that "the buffer was not opened" is a statement about the
  trace of a call.
\<close>

datatype event = OpenArrow bytes | OpenParquet bytes

subsection \<open>Types and constants\<close>

text \<open>
  \<^verbatim>\<open>type DriverType int\<close> with \<^verbatim>\<open>ARROW, PARQUET, INVALID\<close> numbered by
  \<^verbatim>\<open>iota\<close>. The type is an integer type: values other than the three named ones exist.
\<close>

type_synonym DriverType = int

definition ARROW :: DriverType where "ARROW = 0"
definition PARQUET :: DriverType where "PARQUET = 1"
definition INVALID :: DriverType where "INVALID = 2"

definition sessionOptionKey :: string where "sessionOptionKey = ''session''"
definition udfPathOptionKey :: string where "udfPathOptionKey = ''udfPath''"
definition driverTypeKey :: string where "driverTypeKey = ''driverType''"
definition useUnsafeStringReaderKey :: string where
  "useUnsafeStringReaderKey = ''useUnsafeStringReader''"
definition driverBufferSizeKey :: string where "driverBufferSizeKey = ''bufferSize''"
definition defaultBufferSize :: int where "defaultBufferSize = 512"

definition DriverType_String :: "DriverType \<Rightarrow> string" where
  "DriverType_String d =
     (if d = ARROW then ''Arrow''
      else if d = PARQUET then ''Parquet''
      else if d = INVALID then ''Invalid''
      else [])"

text \<open>
  \<^verbatim>\<open>chdbstable.LocalResult\<close> belongs to another module; the driver only calls its
  \<^verbatim>\<open>Buf()\<close>, which yields a byte slice or nil (\<open>None\<close>).
\<close>

record LocalResult =
  Buf :: "bytes option"

text \<open>
  The two cursor structs are declared in files of the package other than
  \<^verbatim>\<open>driver.go\<close>; the fields below are the ones \<^verbatim>\<open>PrepareRows\<close> sets.
  The reader types belong to the Arrow and Parquet libraries and stay abstract.
\<close>

record 'a arrowRows =
  arrowRows_localResult :: LocalResult
  arrowRows_reader :: 'a

record 'p parquetRows =
  parquetRows_localResult :: LocalResult
  parquetRows_reader :: 'p
  parquetRows_bufferSize :: int
  parquetRows_needNewBuffer :: bool
  parquetRows_useUnsafeStringReader :: bool

datatype ('a, 'p) Rows = ArrowRows "'a arrowRows" | ParquetRows "'p parquetRows"

type_synonym queryHandle = "string \<Rightarrow> string list \<Rightarrow> error + LocalResult"

text \<open>
  What the driver calls outside \<^verbatim>\<open>driver.go\<close>: the Arrow and Parquet reader
  constructors, the engine (\<^verbatim>\<open>chdb.NewSession\<close>, \<^verbatim>\<open>chdb.Query\<close>,
  \<^verbatim>\<open>Session.Query\<close>) and \<^verbatim>\<open>sqlbuilder.ClickHouse.Interpolate\<close>. They are
  parameters of the model, with the result types their Go signatures give them.
\<close>

record ('s, 'a, 'p, 'v) extern =
  ipc_NewFileReader :: "bytes \<Rightarrow> error + 'a"
  parquet_NewGenericReader :: "bytes \<Rightarrow> 'p"
  chdb_NewSession :: "string \<Rightarrow> error + 's"
  chdb_Query :: queryHandle
  Session_Query :: "'s \<Rightarrow> queryHandle"
  Interpolate :: "string \<Rightarrow> 'v list \<Rightarrow> error + string"

record 's connector =
  connector_udfPath :: string
  connector_driverType :: DriverType
  connector_bufferSize :: int
  connector_useUnsafe :: bool
  connector_session :: "'s option"

record 's conn =
  conn_udfPath :: string
  conn_driverType :: DriverType
  conn_bufferSize :: int
  conn_useUnsafe :: bool
  conn_session :: "'s option"
  conn_QueryFun :: "queryHandle option"

record 'v NamedValue =
  Name :: string
  Ordinal :: int
  Value :: 'v

record execResult =
  execResult_err :: "error option"

subsection \<open>The standard library functions the driver uses\<close>

text \<open>
  \<^verbatim>\<open>strings.ToUpper\<close> and \<^verbatim>\<open>strings.ToLower\<close> on the ASCII letters; every other
  byte is kept. Go also maps letters outside ASCII, but the only such letters it maps
  into ASCII are U+0131 and U+017F (to \<^verbatim>\<open>I\<close> and \<^verbatim>\<open>S\<close>) and U+0130 and U+212A
  (to \<^verbatim>\<open>i\<close> and \<^verbatim>\<open>k\<close>), none of which occurs in the words the driver compares
  with, so the comparisons below come out as in Go.
\<close>

definition upper_byte :: "char \<Rightarrow> char" where
  "upper_byte c =
     (let n = (of_char c :: nat) in if 97 \<le> n \<and> n \<le> 122 then char_of (n - 32) else c)"

definition lower_byte :: "char \<Rightarrow> char" where
  "lower_byte c =
     (let n = (of_char c :: nat) in if 65 \<le> n \<and> n \<le> 90 then char_of (n + 32) else c)"

definition ToUpper :: "string \<Rightarrow> string" where
  "ToUpper s = map upper_byte s"

definition ToLower :: "string \<Rightarrow> string" where
  "ToLower s = map lower_byte s"

text \<open>
  \<^verbatim>\<open>strconv.Atoi\<close>: an optional sign, then one or more decimal digits and nothing
  else, and the value must fit the 64-bit \<^verbatim>\<open>int\<close>; \<open>None\<close> stands for a non-nil
  error (syntax or range), the only thing the driver looks at.
\<close>

definition is_digit :: "char \<Rightarrow> bool" where
  "is_digit c = (let n = (of_char c :: nat) in 48 \<le> n \<and> n \<le> 57)"

fun parse_digits :: "int \<Rightarrow> string \<Rightarrow> int option" where
  "parse_digits n [] = Some n"
| "parse_digits n (c # cs) =
     (if is_digit c then parse_digits (n * 10 + (int (of_char c) - 48)) cs else None)"

definition Atoi :: "string \<Rightarrow> int option" where
  "Atoi s =
     (case s of
        [] \<Rightarrow> None
      | c # cs \<Rightarrow>
          (let body = (if c = CHR ''-'' \<or> c = CHR ''+'' then cs else s) in
           if body = [] then None
           else (case parse_digits 0 body of
                   None \<Rightarrow> None
                 | Some n \<Rightarrow>
                     (let v = (if c = CHR ''-'' then - n else n) in
                      if - (2 ^ 63) \<le> v \<and> v \<le> 2 ^ 63 - 1 then Some v else None))))"

subsection \<open>Cursor construction\<close>

text \<open>
  \<^verbatim>\<open>func (d DriverType) PrepareRows(result, buf, bufSize, useUnsafe)\<close>: a switch on
  the tag with two cases and a fall-through error.
\<close>

definition PrepareRows ::
  "('s, 'a, 'p, 'v) extern \<Rightarrow> DriverType \<Rightarrow> LocalResult \<Rightarrow> bytes \<Rightarrow> int \<Rightarrow> bool
     \<Rightarrow> ('a, 'p) Rows result \<times> event list" where
  "PrepareRows ext d res buf bufSize useUnsafe =
     (if d = ARROW then
        (case ipc_NewFileReader ext buf of
           Inl err \<Rightarrow> (Err err, [OpenArrow buf])
         | Inr reader \<Rightarrow>
             (Ok (ArrowRows \<lparr>arrowRows_localResult = res, arrowRows_reader = reader\<rparr>),
              [OpenArrow buf]))
      else if d = PARQUET then
        (Ok (ParquetRows
               \<lparr>parquetRows_localResult = res,
                parquetRows_reader = parquet_NewGenericReader ext buf,
                parquetRows_bufferSize = bufSize,
                parquetRows_needNewBuffer = True,
                parquetRows_useUnsafeStringReader = useUnsafe\<rparr>),
         [OpenParquet buf])
      else (Err (Errorf ''Unsupported driver type''), []))"

definition parseDriverType :: "string \<Rightarrow> DriverType" where
  "parseDriverType s =
     (if ToUpper s = ''ARROW'' then ARROW
      else if ToUpper s = ''PARQUET'' then PARQUET
      else INVALID)"

subsection \<open>The exec result\<close>

definition LastInsertId :: "execResult \<Rightarrow> int \<times> error option" where
  "LastInsertId e =
     (case execResult_err e of
        Some err \<Rightarrow> (0, Some err)
      | None \<Rightarrow> (- 1, Some (Errorf ''does not support LastInsertId'')))"

definition RowsAffected :: "execResult \<Rightarrow> int \<times> error option" where
  "RowsAffected e =
     (case execResult_err e of
        Some err \<Rightarrow> (0, Some err)
      | None \<Rightarrow> (- 1, Some (Errorf ''does not support RowsAffected'')))"

subsection \<open>Connector and connection\<close>

text \<open>
  \<^verbatim>\<open>NewConnect(opts)\<close> reads five options from the map; only a failing
  \<^verbatim>\<open>chdb.NewSession\<close> makes it return an error. A field that no option sets keeps
  Go's zero value.
\<close>

definition NewConnect ::
  "('s, 'a, 'p, 'v) extern \<Rightarrow> (string \<rightharpoonup> string) \<Rightarrow> error + 's connector" where
  "NewConnect ext opts =
     (case (case opts sessionOptionKey of
              Some sessionPath \<Rightarrow>
                (case chdb_NewSession ext sessionPath of
                   Inl err \<Rightarrow> Inl err
                 | Inr s \<Rightarrow> Inr (Some s))
            | None \<Rightarrow> Inr None) of
        Inl err \<Rightarrow> Inl err
      | Inr sess \<Rightarrow>
          Inr \<lparr>connector_udfPath =
                 (case opts udfPathOptionKey of Some udfPath \<Rightarrow> udfPath | None \<Rightarrow> []),
               connector_driverType =
                 (case opts driverTypeKey of
                    Some driverType \<Rightarrow> parseDriverType driverType
                  | None \<Rightarrow> ARROW),
               connector_bufferSize =
                 (case opts driverBufferSizeKey of
                    Some bufferSize \<Rightarrow>
                      (case Atoi bufferSize of
                         None \<Rightarrow> defaultBufferSize
                       | Some sz \<Rightarrow> sz)
                  | None \<Rightarrow> defaultBufferSize),
               connector_useUnsafe =
                 (case opts useUnsafeStringReaderKey of
                    Some useUnsafe \<Rightarrow> ToLower useUnsafe = ''true''
                  | None \<Rightarrow> False),
               connector_session = sess\<rparr>)"

definition SetupQueryFun :: "('s, 'a, 'p, 'v) extern \<Rightarrow> 's conn \<Rightarrow> 's conn" where
  "SetupQueryFun ext c =
     (case conn_session c of
        None \<Rightarrow> c\<lparr>conn_QueryFun := Some (chdb_Query ext)\<rparr>
      | Some s \<Rightarrow> c\<lparr>conn_QueryFun := Some (Session_Query ext s)\<rparr>)"

definition Connect :: "('s, 'a, 'p, 'v) extern \<Rightarrow> 's connector \<Rightarrow> error + 's conn" where
  "Connect ext c =
     (if connector_driverType c = INVALID then Inl (Errorf ''DriverType not supported'')
      else Inr (SetupQueryFun ext
                  \<lparr>conn_udfPath = connector_udfPath c,
                   conn_driverType = connector_driverType c,
                   conn_bufferSize = connector_bufferSize c,
                   conn_useUnsafe = connector_useUnsafe c,
                   conn_session = connector_session c,
                   conn_QueryFun = None\<rparr>))"

subsection \<open>Queries\<close>

fun prepareValues_from :: "int \<Rightarrow> 'v list \<Rightarrow> 'v NamedValue list" where
  "prepareValues_from i [] = []"
| "prepareValues_from i (v # vs) =
     \<lparr>Name = [], Ordinal = i, Value = v\<rparr> # prepareValues_from (i + 1) vs"

definition prepareValues :: "'v list \<Rightarrow> 'v NamedValue list" where
  "prepareValues values = prepareValues_from 0 values"

definition compileArguments ::
  "('s, 'a, 'p, 'v) extern \<Rightarrow> string \<Rightarrow> 'v NamedValue list \<Rightarrow> error + string" where
  "compileArguments ext query args =
     (if 0 < length args then Interpolate ext query (map Value args) else Inr query)"

definition QueryContext ::
  "('s, 'a, 'p, 'v) extern \<Rightarrow> 's conn \<Rightarrow> string \<Rightarrow> 'v NamedValue list
     \<Rightarrow> ('a, 'p) Rows result \<times> event list" where
  "QueryContext ext c query args =
     (case compileArguments ext query args of
        Inl err \<Rightarrow> (Err err, [])
      | Inr compiledQuery \<Rightarrow>
          (case conn_QueryFun c of
             None \<Rightarrow> (Panic, [])
           | Some QueryFun \<Rightarrow>
               (case QueryFun compiledQuery
                       [DriverType_String (conn_driverType c), conn_udfPath c] of
                  Inl err \<Rightarrow> (Err err, [])
                | Inr res \<Rightarrow>
                    (case Buf res of
                       None \<Rightarrow> (Err (Errorf ''result is nil''), [])
                     | Some buf \<Rightarrow>
                         PrepareRows ext (conn_driverType c) res buf
                           (conn_bufferSize c) (conn_useUnsafe c)))))"

definition ExecContext ::
  "('s, 'a, 'p, 'v) extern \<Rightarrow> 's conn \<Rightarrow> string \<Rightarrow> 'v NamedValue list
     \<Rightarrow> execResult result \<times> event list" where
  "ExecContext ext c query args =
     (case QueryContext ext c query args of
        (Panic, tr) \<Rightarrow> (Panic, tr)
      | (Err err, tr) \<Rightarrow>
          (if Error err \<noteq> ''result is nil'' then (Err err, tr)
           else (Ok \<lparr>execResult_err = None\<rparr>, tr))
      | (Ok rows, tr) \<Rightarrow> (Ok \<lparr>execResult_err = None\<rparr>, tr))"

definition Query ::
  "('s, 'a, 'p, 'v) extern \<Rightarrow> 's conn \<Rightarrow> string \<Rightarrow> 'v list
     \<Rightarrow> ('a, 'p) Rows result \<times> event list" where
  "Query ext c query values = QueryContext ext c query (prepareValues values)"

definition Exec ::
  "('s, 'a, 'p, 'v) extern \<Rightarrow> 's conn \<Rightarrow> string \<Rightarrow> 'v list
     \<Rightarrow> execResult result \<times> event list" where
  "Exec ext c query values = ExecContext ext c query (prepareValues values)"

text \<open>
  A sample environment, used to run the driver on concrete inputs: both readers are the
  buffer itself (an empty buffer is not an Arrow file), the engine answers a query with
  the query text as buffer and the empty query with a nil buffer, a session answers
  every query with an error, and interpolation appends the arguments to the query.
\<close>

definition sample_extern :: "(string, bytes, bytes, string) extern" where
  "sample_extern =
     \<lparr>ipc_NewFileReader = (\<lambda>buf. if buf = [] then Inl (Errorf ''not an arrow file'') else Inr buf),
      parquet_NewGenericReader = (\<lambda>buf. buf),
      chdb_NewSession = (\<lambda>path. if path = [] then Inl (Errorf ''no session path'') else Inr path),
      chdb_Query = (\<lambda>q fs. if q = [] then Inr \<lparr>Buf = None\<rparr> else Inr \<lparr>Buf = Some q\<rparr>),
      Session_Query = (\<lambda>s q fs. Inl (Errorf ''result is nil'')),
      Interpolate = (\<lambda>q vs. Inr (q @ concat vs))\<rparr>"

definition sample_connector :: "DriverType \<Rightarrow> int \<Rightarrow> string connector" where
  "sample_connector d sz =
     \<lparr>connector_udfPath = [], connector_driverType = d, connector_bufferSize = sz,
      connector_useUnsafe = False, connector_session = None\<rparr>"

definition sample_conn :: "DriverType \<Rightarrow> int \<Rightarrow> string conn" where
  "sample_conn d sz =
     \<lparr>conn_udfPath = [], conn_driverType = d, conn_bufferSize = sz,
      conn_useUnsafe = False, conn_session = None,
      conn_QueryFun = Some (chdb_Query sample_extern)\<rparr>"

definition sample_session_conn :: "string conn" where
  "sample_session_conn =
     \<lparr>conn_udfPath = [], conn_driverType = ARROW, conn_bufferSize = 512,
      conn_useUnsafe = False, conn_session = Some ''/tmp/db'',
      conn_QueryFun = Some (Session_Query sample_extern ''/tmp/db'')\<rparr>"

section \<open>The row cursors, modelled from the specification\<close>

text \<open>
  Modelled from the spec: the two cursor implementations (\<^verbatim>\<open>arrowRows\<close> and
  \<^verbatim>\<open>parquetRows\<close> with their \<^verbatim>\<open>Next\<close>, \<^verbatim>\<open>Columns\<close> and \<^verbatim>\<open>Close\<close>) are
  declared in files of the package that are not part of the sources at hand; only
  their construction in \<^verbatim>\<open>PrepareRows\<close> is. The definitions of this section follow
  the specification's sections 3, 4.2, 4.3, 4.4 and 7 sentence by sentence.

  A row is a value of an arbitrary type \<open>'r\<close>; \<open>Next\<close> returns the row instead of
  writing it into destination slots. A result buffer is modelled by what its container
  reader yields: a stream container yields batches, a file container yields rows, and
  either can turn out to be corrupt at some point. Borrowed views (zero-copy mode)
  alias memory, which the model does not represent: the mode is a flag that leaves the
  row values as they are.
\<close>

subsection \<open>Outcomes\<close>

datatype fault = ConfigurationError | DecodeError | UseAfterClose

datatype 'r advance = Row 'r | EndOfData | Failed fault

datatype op = DoNext | DoColumns | DoClose

subsection \<open>Cursor state\<close>

text \<open>
  Modelled from the spec: the state shared by both cursors (section 3, CursorState and
  Schema), with one counter per resource that \<open>Close\<close> releases, so that a double
  release is visible.
\<close>

record core =
  columns :: "string list"
  exhausted :: bool
  closed :: bool
  reader_released :: nat
  buffer_released :: nat

text \<open>
  Modelled from the spec: releasing the container reader and the result buffer
  (section 4.2, \<open>Close\<close>): the first call performs the release, later calls are no-ops.
  A decode failure moves the cursor to this closed state as well (sections 4.3, 4.4
  and 7), so that the release is guaranteed on the error path.
\<close>

definition release :: "'z core_scheme \<Rightarrow> 'z core_scheme" where
  "release s =
     (if closed s then s
      else s\<lparr>closed := True,
             reader_released := reader_released s + 1,
             buffer_released := buffer_released s + 1\<rparr>)"

subsection \<open>StreamCursor\<close>

datatype 'r chunk = Batch "'r list" | Corrupt

record 'r StreamCursor = core +
  container :: "'r chunk list"
  batch :: "'r list"
  rowIndex :: nat

text \<open>
  Modelled from the spec: section 4.3, step 1. Construction reads the schema and no
  batch.
\<close>

definition open_stream :: "string list \<Rightarrow> 'r chunk list \<Rightarrow> 'r StreamCursor" where
  "open_stream cols chunks =
     \<lparr>columns = cols, exhausted = False, closed = False,
      reader_released = 0, buffer_released = 0,
      container = chunks, batch = [], rowIndex = 0\<rparr>"

datatype 'r fetched = NoMore | Broken "'r chunk list" | Loaded "'r list" "'r chunk list"

text \<open>
  Modelled from the spec: section 4.3, step 2, "request the next batch from the
  container". A batch without rows is exhausted the moment it is loaded, so the request
  is repeated until a batch with a row arrives, the container ends or a batch is
  corrupt.
\<close>

fun fetch :: "'r chunk list \<Rightarrow> 'r fetched" where
  "fetch [] = NoMore"
| "fetch (Corrupt # cs) = Broken cs"
| "fetch (Batch [] # cs) = fetch cs"
| "fetch (Batch (r # rs) # cs) = Loaded (r # rs) cs"

text \<open>
  Modelled from the spec: section 4.3, steps 2 to 4, behind the check of section 4.2
  that a closed cursor reports "cursor closed".
\<close>

definition StreamCursor_Next :: "'r StreamCursor \<Rightarrow> 'r advance \<times> 'r StreamCursor" where
  "StreamCursor_Next s =
     (if closed s then (Failed UseAfterClose, s)
      else if rowIndex s < length (batch s) then
        (Row (batch s ! rowIndex s), s\<lparr>rowIndex := rowIndex s + 1\<rparr>)
      else
        (case fetch (container s) of
           NoMore \<Rightarrow> (EndOfData, s\<lparr>exhausted := True, container := []\<rparr>)
         | Broken cs \<Rightarrow> (Failed DecodeError, release (s\<lparr>container := cs\<rparr>))
         | Loaded b cs \<Rightarrow>
             (Row (b ! 0), s\<lparr>container := cs, batch := b, rowIndex := 1\<rparr>)))"

subsection \<open>FileCursor\<close>

datatype 'r item = Good 'r | Bad

record 'r FileCursor = core +
  source :: "'r item list"
  stagingBuffer :: "'r list"
  bufferSize :: nat
  needRefill :: bool
  zeroCopyStrings :: bool
  batchReads :: nat

text \<open>
  Modelled from the spec: section 4.1, "On FILE: constructs a FileCursor with
  needRefill = true", and section 4.4 for the capacity and the zero-copy flag.
  \<open>batchReads\<close> counts the requests made to the underlying reader.
\<close>

definition open_file :: "string list \<Rightarrow> 'r item list \<Rightarrow> nat \<Rightarrow> bool \<Rightarrow> 'r FileCursor" where
  "open_file cols items capacity zeroCopy =
     \<lparr>columns = cols, exhausted = False, closed = False,
      reader_released = 0, buffer_released = 0,
      source = items, stagingBuffer = [], bufferSize = capacity,
      needRefill = True, zeroCopyStrings = zeroCopy, batchReads = 0\<rparr>"

text \<open>
  Modelled from the spec: section 4.4, step 1, "request up to bufferSize rows from the
  underlying reader": the rows up to the capacity or to the end of the file, whichever
  comes first; \<open>None\<close> when the reader meets a corrupt part on the way.
\<close>

fun read_rows :: "nat \<Rightarrow> 'r item list \<Rightarrow> ('r list \<times> 'r item list) option" where
  "read_rows 0 src = Some ([], src)"
| "read_rows (Suc n) [] = Some ([], [])"
| "read_rows (Suc n) (Bad # src) = None"
| "read_rows (Suc n) (Good r # src) =
     (case read_rows n src of
        None \<Rightarrow> None
      | Some (rs, src') \<Rightarrow> Some (r # rs, src'))"

text \<open>
  Modelled from the spec: section 4.4, steps 2 and 3. Popping from an empty staging
  buffer that is not marked for refill does not arise (see \<open>staged\<close> below); the
  model treats it as a decode failure.
\<close>

definition pop :: "'r FileCursor \<Rightarrow> 'r advance \<times> 'r FileCursor" where
  "pop s =
     (case stagingBuffer s of
        [] \<Rightarrow> (Failed DecodeError, release s)
      | r # rest \<Rightarrow> (Row r, s\<lparr>stagingBuffer := rest, needRefill := (rest = [])\<rparr>))"

text \<open>
  Modelled from the spec: section 4.4, steps 1 and 4, behind the check of section 4.2
  that a closed cursor reports "cursor closed".
\<close>

definition FileCursor_Next :: "'r FileCursor \<Rightarrow> 'r advance \<times> 'r FileCursor" where
  "FileCursor_Next s =
     (if closed s then (Failed UseAfterClose, s)
      else if needRefill s then
        (case read_rows (bufferSize s) (source s) of
           None \<Rightarrow> (Failed DecodeError, release (s\<lparr>batchReads := batchReads s + 1\<rparr>))
         | Some ([], src) \<Rightarrow>
             (EndOfData, s\<lparr>exhausted := True, source := src, batchReads := batchReads s + 1\<rparr>)
         | Some (r # rs, src) \<Rightarrow>
             pop (s\<lparr>source := src, stagingBuffer := r # rs, needRefill := False,
                    batchReads := batchReads s + 1\<rparr>))
      else pop s)"

definition staged :: "'r FileCursor \<Rightarrow> bool" where
  "staged s = (needRefill s \<or> stagingBuffer s \<noteq> [])"

subsection \<open>The RowCursor contract\<close>

datatype 'r RowCursor = Stream "'r StreamCursor" | File "'r FileCursor"

text \<open>Modelled from the spec: section 4.2, the three operations of the contract.\<close>

fun Next :: "'r RowCursor \<Rightarrow> 'r advance \<times> 'r RowCursor" where
  "Next (Stream s) = (case StreamCursor_Next s of (out, s') \<Rightarrow> (out, Stream s'))"
| "Next (File s) = (case FileCursor_Next s of (out, s') \<Rightarrow> (out, File s'))"

fun Columns :: "'r RowCursor \<Rightarrow> fault + string list" where
  "Columns (Stream s) = (if closed s then Inl UseAfterClose else Inr (columns s))"
| "Columns (File s) = (if closed s then Inl UseAfterClose else Inr (columns s))"

fun Close :: "'r RowCursor \<Rightarrow> fault option \<times> 'r RowCursor" where
  "Close (Stream s) = (None, Stream (release s))"
| "Close (File s) = (None, File (release s))"

fun is_closed :: "'r RowCursor \<Rightarrow> bool" where
  "is_closed (Stream s) = closed s"
| "is_closed (File s) = closed s"

fun releases :: "'r RowCursor \<Rightarrow> nat \<times> nat" where
  "releases (Stream s) = (reader_released s, buffer_released s)"
| "releases (File s) = (reader_released s, buffer_released s)"

fun fresh :: "'r RowCursor \<Rightarrow> bool" where
  "fresh (Stream s) = (s = open_stream (columns s) (container s))"
| "fresh (File s) =
     (s = open_file (columns s) (source s) (bufferSize s) (zeroCopyStrings s))"

subsection \<open>Driving a cursor\<close>

text \<open>\<open>pull step n s\<close> calls \<open>step\<close> n times in a row and collects what the calls return.\<close>

fun pull :: "('s \<Rightarrow> 'o \<times> 's) \<Rightarrow> nat \<Rightarrow> 's \<Rightarrow> 'o list \<times> 's" where
  "pull step 0 s = ([], s)"
| "pull step (Suc n) s =
     (case step s of
        (out, s') \<Rightarrow> (case pull step n s' of (outs, s'') \<Rightarrow> (out # outs, s'')))"

fun apply_op :: "op \<Rightarrow> 'r RowCursor \<Rightarrow> 'r RowCursor" where
  "apply_op DoNext c = snd (Next c)"
| "apply_op DoColumns c = c"
| "apply_op DoClose c = snd (Close c)"

fun run :: "op list \<Rightarrow> 'r RowCursor \<Rightarrow> 'r RowCursor" where
  "run [] c = c"
| "run (x # xs) c = run xs (apply_op x c)"

section \<open>Properties of the driver\<close>

subsection \<open>Auxiliary facts\<close>

lemma tags_distinct: "ARROW \<noteq> PARQUET" "ARROW \<noteq> INVALID" "PARQUET \<noteq> INVALID"
  by (simp_all add: ARROW_def PARQUET_def INVALID_def)


lemma PrepareRows_bufferSize:
  "PrepareRows ext d res buf bufSize useUnsafe = (Ok (ParquetRows p), tr) \<Longrightarrow>
   parquetRows_bufferSize p = bufSize \<and> parquetRows_needNewBuffer p \<and> tr = [OpenParquet buf]"
  by (auto simp: PrepareRows_def split: if_splits sum.splits)

lemma QueryContext_bufferSize:
  "QueryContext ext c query args = (Ok (ParquetRows p), tr) \<Longrightarrow>
   parquetRows_bufferSize p = conn_bufferSize c \<and> parquetRows_needNewBuffer p"
  by (auto simp: QueryContext_def split: sum.splits option.splits dest: PrepareRows_bufferSize)

lemma Connect_fields:
  "Connect ext k = Inr cc \<Longrightarrow>
   conn_bufferSize cc = connector_bufferSize k \<and> conn_driverType cc = connector_driverType k
   \<and> connector_driverType k \<noteq> INVALID"
  by (auto simp: Connect_def SetupQueryFun_def split: if_splits option.splits)

lemma NewConnect_fields:
  "NewConnect ext opts = Inr k \<Longrightarrow>
   connector_bufferSize k =
     (case opts driverBufferSizeKey of
        None \<Rightarrow> defaultBufferSize
      | Some b \<Rightarrow> (case Atoi b of None \<Rightarrow> defaultBufferSize | Some sz \<Rightarrow> sz))
   \<and> connector_driverType k =
     (case opts driverTypeKey of None \<Rightarrow> ARROW | Some s \<Rightarrow> parseDriverType s)"
  by (auto simp: NewConnect_def split: sum.splits option.splits)


lemma PrepareRows_other:
  "d \<noteq> ARROW \<Longrightarrow> d \<noteq> PARQUET \<Longrightarrow>
   PrepareRows ext d res buf bufSize useUnsafe = (Err (Errorf ''Unsupported driver type''), [])"
  by (simp add: PrepareRows_def)

subsection \<open>Cursor construction\<close>

text \<open>
  \<^bold>\<open>C5.\<close> Every tag other than \<open>ARROW\<close> and \<open>PARQUET\<close> makes \<^verbatim>\<open>PrepareRows\<close> return
  the error "Unsupported driver type" with an empty trace: neither reader constructor
  is called on the buffer. A query on a connection with such a tag therefore never
  yields a cursor and never opens a buffer, whatever the engine answers.
\<close>

theorem unsupported_format_rejected:
  assumes "d \<noteq> ARROW" and "d \<noteq> PARQUET"
  shows "PrepareRows ext d res buf bufSize useUnsafe =
           (Err (Errorf ''Unsupported driver type''), [])
       \<and> snd (QueryContext ext (c\<lparr>conn_driverType := d\<rparr>) query args) = []
       \<and> (\<forall>rows. fst (QueryContext ext (c\<lparr>conn_driverType := d\<rparr>) query args) \<noteq> Ok rows)"
  using assms
  by (simp add: QueryContext_def PrepareRows_other
           split: sum.splits option.splits)

theorem unsupported_format_rejected_witness:
  "INVALID \<noteq> ARROW \<and> INVALID \<noteq> PARQUET
   \<and> PrepareRows sample_extern INVALID \<lparr>Buf = Some ''PAR1''\<rparr> ''PAR1'' 512 False =
           (Err (Errorf ''Unsupported driver type''), [])
   \<and> QueryContext sample_extern (sample_conn INVALID 512) ''select 1'' [] =
           (Err (Errorf ''Unsupported driver type''), [])"
proof -
  have h1: "INVALID \<noteq> ARROW" and h2: "INVALID \<noteq> PARQUET"
    using tags_distinct by simp_all
  have q: "QueryContext sample_extern (sample_conn INVALID 512) ''select 1'' [] =
           (Err (Errorf ''Unsupported driver type''), [])"
    by code_simp
  show ?thesis
    using h1 h2 q
      unsupported_format_rejected [OF h1 h2, of sample_extern "\<lparr>Buf = Some ''PAR1''\<rparr>"
        "''PAR1''" 512 False "sample_conn INVALID 512" "''select 1''" "[]"]
    by simp
qed



subsection \<open>Connector options\<close>

text \<open>
  \<^bold>\<open>C7.\<close> As stated, the claim fails: the option \<^verbatim>\<open>bufferSize=-1\<close> is accepted by
  \<^verbatim>\<open>strconv.Atoi\<close>, and the Parquet cursor is built with capacity \<open>-1\<close>.
\<close>

theorem bufferSize_not_positive_counterexample:
  "NewConnect sample_extern [driverTypeKey \<mapsto> ''parquet'', driverBufferSizeKey \<mapsto> ''-1'']
     = Inr (sample_connector PARQUET (- 1))
   \<and> Connect sample_extern (sample_connector PARQUET (- 1)) = Inr (sample_conn PARQUET (- 1))
   \<and> Query sample_extern (sample_conn PARQUET (- 1)) ''select 1'' [] =
       (Ok (ParquetRows
              \<lparr>parquetRows_localResult = \<lparr>Buf = Some ''select 1''\<rparr>,
               parquetRows_reader = ''select 1'',
               parquetRows_bufferSize = - 1,
               parquetRows_needNewBuffer = True,
               parquetRows_useUnsafeStringReader = False\<rparr>),
        [OpenParquet ''select 1''])"
proof -
  have a: "NewConnect sample_extern [driverTypeKey \<mapsto> ''parquet'', driverBufferSizeKey \<mapsto> ''-1'']
     = Inr (sample_connector PARQUET (- 1))"
    by code_simp
  have b: "Connect sample_extern (sample_connector PARQUET (- 1)) = Inr (sample_conn PARQUET (- 1))"
    using tags_distinct
    by (simp add: Connect_def SetupQueryFun_def sample_connector_def sample_conn_def)
  have c: "Query sample_extern (sample_conn PARQUET (- 1)) ''select 1'' [] =
       (Ok (ParquetRows
              \<lparr>parquetRows_localResult = \<lparr>Buf = Some ''select 1''\<rparr>,
               parquetRows_reader = ''select 1'',
               parquetRows_bufferSize = - 1,
               parquetRows_needNewBuffer = True,
               parquetRows_useUnsafeStringReader = False\<rparr>),
        [OpenParquet ''select 1''])"
    by code_simp
  show ?thesis using a b c by simp
qed

text \<open>
  \<^bold>\<open>C7.\<close> What holds: the capacity is 512 when the option \<^verbatim>\<open>bufferSize\<close> is absent or
  \<^verbatim>\<open>strconv.Atoi\<close> rejects it, and otherwise the integer \<^verbatim>\<open>Atoi\<close> returns, which
  is used as it is; it is positive exactly when the option is absent, rejected or a
  positive number. The same value reaches every Parquet cursor of the connection.
\<close>

theorem bufferSize_default_or_parsed:
  assumes "NewConnect ext opts = Inr k"
  shows "connector_bufferSize k =
           (case opts driverBufferSizeKey of
              None \<Rightarrow> 512
            | Some b \<Rightarrow> (case Atoi b of None \<Rightarrow> 512 | Some sz \<Rightarrow> sz))
       \<and> (0 < connector_bufferSize k \<longleftrightarrow>
            (case opts driverBufferSizeKey of
               None \<Rightarrow> True
             | Some b \<Rightarrow> (case Atoi b of None \<Rightarrow> True | Some sz \<Rightarrow> 0 < sz)))
       \<and> (\<forall>cc query args p tr.
            Connect ext k = Inr cc \<longrightarrow>
            QueryContext ext cc query args = (Ok (ParquetRows p), tr) \<longrightarrow>
            parquetRows_bufferSize p = connector_bufferSize k)"
proof -
  have sz: "connector_bufferSize k =
           (case opts driverBufferSizeKey of
              None \<Rightarrow> 512
            | Some b \<Rightarrow> (case Atoi b of None \<Rightarrow> 512 | Some sz \<Rightarrow> sz))"
    using NewConnect_fields [OF assms]
    by (simp add: defaultBufferSize_def split: option.splits)
  have pos: "0 < connector_bufferSize k \<longleftrightarrow>
            (case opts driverBufferSizeKey of
               None \<Rightarrow> True
             | Some b \<Rightarrow> (case Atoi b of None \<Rightarrow> True | Some sz \<Rightarrow> 0 < sz))"
    unfolding sz by (simp split: option.splits)
  have chain: "parquetRows_bufferSize p = connector_bufferSize k"
    if "Connect ext k = Inr cc" and "QueryContext ext cc query args = (Ok (ParquetRows p), tr)"
    for cc query args p tr
    using Connect_fields [OF that(1)] QueryContext_bufferSize [OF that(2)] by simp
  show ?thesis
    using sz pos chain by blast
qed

theorem bufferSize_default_or_parsed_witness:
  "NewConnect sample_extern [driverTypeKey \<mapsto> ''parquet'', driverBufferSizeKey \<mapsto> ''64'']
     = Inr (sample_connector PARQUET 64)
   \<and> connector_bufferSize (sample_connector PARQUET 64) = 64
   \<and> Atoi ''64'' = Some 64
   \<and> NewConnect sample_extern [driverBufferSizeKey \<mapsto> ''many'']
     = Inr (sample_connector ARROW 512)
   \<and> connector_bufferSize (sample_connector ARROW 512) = 512
   \<and> Atoi ''many'' = None"
proof -
  have a: "NewConnect sample_extern [driverTypeKey \<mapsto> ''parquet'', driverBufferSizeKey \<mapsto> ''64'']
     = Inr (sample_connector PARQUET 64)"
    by code_simp
  have b: "NewConnect sample_extern [driverBufferSizeKey \<mapsto> ''many'']
     = Inr (sample_connector ARROW 512)"
    by code_simp
  have c: "Atoi ''64'' = Some 64" "Atoi ''many'' = None"
    by code_simp+
  show ?thesis
    using a b c bufferSize_default_or_parsed [OF a] bufferSize_default_or_parsed [OF b]
    by (simp add: driverBufferSizeKey_def driverTypeKey_def)
qed



subsection \<open>Query and exec\<close>

text \<open>
  \<^bold>\<open>C6.\<close> When the engine returns a result whose buffer is nil, \<^verbatim>\<open>QueryContext\<close>
  returns the error "result is nil". \<^verbatim>\<open>ExecContext\<close> succeeds exactly when
  \<^verbatim>\<open>QueryContext\<close> succeeds or returns an error with that message, whatever produced
  the error, and its result is the same in both cases.
\<close>

theorem nil_buffer_is_matched_by_message:
  "(compileArguments ext query args = Inr compiled \<longrightarrow>
    conn_QueryFun c = Some QueryFun \<longrightarrow>
    QueryFun compiled [DriverType_String (conn_driverType c), conn_udfPath c] = Inr res \<longrightarrow>
    Buf res = None \<longrightarrow>
    QueryContext ext c query args = (Err (Errorf ''result is nil''), []))
   \<and> ((\<exists>r. fst (ExecContext ext c query args) = Ok r) \<longleftrightarrow>
        ((\<exists>rows. fst (QueryContext ext c query args) = Ok rows)
         \<or> (\<exists>err. fst (QueryContext ext c query args) = Err err
                  \<and> Error err = ''result is nil'')))
   \<and> (\<forall>r. fst (ExecContext ext c query args) = Ok r \<longrightarrow> r = \<lparr>execResult_err = None\<rparr>)"
proof (intro conjI)
  show "compileArguments ext query args = Inr compiled \<longrightarrow>
    conn_QueryFun c = Some QueryFun \<longrightarrow>
    QueryFun compiled [DriverType_String (conn_driverType c), conn_udfPath c] = Inr res \<longrightarrow>
    Buf res = None \<longrightarrow>
    QueryContext ext c query args = (Err (Errorf ''result is nil''), [])"
    by (simp add: QueryContext_def)
next
  obtain out tr where q: "QueryContext ext c query args = (out, tr)"
    by (cases "QueryContext ext c query args")
  show "(\<exists>r. fst (ExecContext ext c query args) = Ok r) \<longleftrightarrow>
        ((\<exists>rows. fst (QueryContext ext c query args) = Ok rows)
         \<or> (\<exists>err. fst (QueryContext ext c query args) = Err err
                  \<and> Error err = ''result is nil''))"
    by (cases out) (simp_all add: ExecContext_def q)
next
  obtain out tr where q: "QueryContext ext c query args = (out, tr)"
    by (cases "QueryContext ext c query args")
  show "\<forall>r. fst (ExecContext ext c query args) = Ok r \<longrightarrow> r = \<lparr>execResult_err = None\<rparr>"
    by (cases out) (auto simp: ExecContext_def q split: if_splits)
qed

theorem nil_buffer_is_matched_by_message_witness:
  "compileArguments sample_extern [] [] = Inr []
   \<and> conn_QueryFun (sample_conn ARROW 512) = Some (chdb_Query sample_extern)
   \<and> chdb_Query sample_extern []
         [DriverType_String (conn_driverType (sample_conn ARROW 512)),
          conn_udfPath (sample_conn ARROW 512)] = Inr \<lparr>Buf = None\<rparr>
   \<and> Buf \<lparr>Buf = None\<rparr> = None
   \<and> QueryContext sample_extern (sample_conn ARROW 512) [] [] =
       (Err (Errorf ''result is nil''), [])
   \<and> fst (ExecContext sample_extern (sample_conn ARROW 512) [] []) =
       Ok \<lparr>execResult_err = None\<rparr>
   \<and> fst (QueryContext sample_extern sample_session_conn ''select 1'' []) =
       Err (Errorf ''result is nil'')
   \<and> fst (ExecContext sample_extern sample_session_conn ''select 1'' []) =
       Ok \<lparr>execResult_err = None\<rparr>"
proof -
  have h1: "compileArguments sample_extern [] [] = Inr []"
    by (simp add: compileArguments_def)
  have h2: "conn_QueryFun (sample_conn ARROW 512) = Some (chdb_Query sample_extern)"
    by (simp add: sample_conn_def)
  have h3: "chdb_Query sample_extern []
         [DriverType_String (conn_driverType (sample_conn ARROW 512)),
          conn_udfPath (sample_conn ARROW 512)] = Inr \<lparr>Buf = None\<rparr>"
    by (simp add: sample_extern_def)
  have h4: "Buf \<lparr>Buf = None\<rparr> = None"
    by simp
  note T = nil_buffer_is_matched_by_message [of sample_extern "[]" "[]" "[]"
        "sample_conn ARROW 512" "chdb_Query sample_extern" "\<lparr>Buf = None\<rparr>"]
  have q1: "QueryContext sample_extern (sample_conn ARROW 512) [] [] =
       (Err (Errorf ''result is nil''), [])"
    using T h1 h2 h3 h4 by blast
  have "\<exists>err. fst (QueryContext sample_extern (sample_conn ARROW 512) [] []) = Err err
                  \<and> Error err = ''result is nil''"
    unfolding q1 by simp
  with T obtain r where r: "fst (ExecContext sample_extern (sample_conn ARROW 512) [] []) = Ok r"
    by blast
  with T have e1: "fst (ExecContext sample_extern (sample_conn ARROW 512) [] []) =
       Ok \<lparr>execResult_err = None\<rparr>"
    by blast
  have q2: "fst (QueryContext sample_extern sample_session_conn ''select 1'' []) =
       Err (Errorf ''result is nil'')"
    by code_simp
  have e2: "fst (ExecContext sample_extern sample_session_conn ''select 1'' []) =
       Ok \<lparr>execResult_err = None\<rparr>"
    by code_simp
  show ?thesis
    by (intro conjI h1 h2 h3 h4 q1 e1 q2 e2)
qed

text \<open>
  \<^bold>\<open>C10.\<close> Whenever \<^verbatim>\<open>ExecContext\<close> succeeds, \<^verbatim>\<open>LastInsertId\<close> and
  \<^verbatim>\<open>RowsAffected\<close> of its result return \<open>-1\<close> with a "does not support" error.
\<close>

theorem exec_result_reports_nothing:
  assumes "fst (ExecContext ext c query args) = Ok r"
  shows "LastInsertId r = (- 1, Some (Errorf ''does not support LastInsertId''))
       \<and> RowsAffected r = (- 1, Some (Errorf ''does not support RowsAffected''))"
proof -
  have "r = \<lparr>execResult_err = None\<rparr>"
    using assms
    by (auto simp: ExecContext_def split: prod.splits result.splits if_splits)
  then show ?thesis
    by (simp add: LastInsertId_def RowsAffected_def)
qed

theorem exec_result_reports_nothing_witness:
  "fst (ExecContext sample_extern (sample_conn ARROW 512) ''create table t'' []) =
     Ok \<lparr>execResult_err = None\<rparr>
   \<and> LastInsertId \<lparr>execResult_err = None\<rparr> =
       (- 1, Some (Errorf ''does not support LastInsertId''))
   \<and> RowsAffected \<lparr>execResult_err = None\<rparr> =
       (- 1, Some (Errorf ''does not support RowsAffected''))"
proof -
  have h: "fst (ExecContext sample_extern (sample_conn ARROW 512) ''create table t'' []) =
     Ok \<lparr>execResult_err = None\<rparr>"
    by code_simp
  show ?thesis
    using h exec_result_reports_nothing [OF h] by simp
qed

section \<open>Properties of the cursors\<close>

subsection \<open>Closed cursors\<close>

lemma closed_release [simp]: "closed (release s)"
  by (simp add: release_def)

lemma release_closed: "closed s \<Longrightarrow> release s = s"
  by (simp add: release_def)

lemma Next_closed: "is_closed c \<Longrightarrow> Next c = (Failed UseAfterClose, c)"
  by (cases c) (simp_all add: StreamCursor_Next_def FileCursor_Next_def)

lemma Close_closed: "is_closed c \<Longrightarrow> Close c = (None, c)"
  by (cases c) (simp_all add: release_closed)

lemma is_closed_Close: "is_closed (snd (Close c))"
  by (cases c) simp_all

lemma apply_op_closed: "is_closed c \<Longrightarrow> apply_op x c = c"
  by (cases x) (simp_all add: Next_closed Close_closed)

lemma run_closed: "is_closed c \<Longrightarrow> run ops c = c"
  by (induction ops) (simp_all add: apply_op_closed)

subsection \<open>Release counters\<close>

lemma StreamCursor_Next_counters:
  assumes "StreamCursor_Next s = (out, s')"
    and "(reader_released s, buffer_released s) = (if closed s then (1, 1) else (0, 0))"
  shows "(reader_released s', buffer_released s') = (if closed s' then (1, 1) else (0, 0))"
  using assms
  by (auto simp: StreamCursor_Next_def release_def split: if_splits fetched.splits)

lemma pop_counters:
  assumes "pop s = (out, s')"
    and "(reader_released s, buffer_released s) = (if closed s then (1, 1) else (0, 0))"
  shows "(reader_released s', buffer_released s') = (if closed s' then (1, 1) else (0, 0))"
  using assms
  by (auto simp: pop_def release_def split: if_splits list.splits)

lemma FileCursor_Next_counters:
  assumes "FileCursor_Next s = (out, s')"
    and "(reader_released s, buffer_released s) = (if closed s then (1, 1) else (0, 0))"
  shows "(reader_released s', buffer_released s') = (if closed s' then (1, 1) else (0, 0))"
proof (cases "closed s \<or> \<not> needRefill s")
  case True
  then show ?thesis
    using assms pop_counters [of s out s']
    by (auto simp: FileCursor_Next_def split: if_splits)
next
  case False
  then have open_s: "\<not> closed s" and refill: "needRefill s" by simp_all
  show ?thesis
  proof (cases "read_rows (bufferSize s) (source s)")
    case None
    then show ?thesis
      using assms open_s refill by (auto simp: FileCursor_Next_def release_def)
  next
    case (Some a)
    obtain rows src where a: "a = (rows, src)" by (cases a)
    show ?thesis
    proof (cases rows)
      case Nil
      then show ?thesis
        using assms open_s refill Some a by (auto simp: FileCursor_Next_def)
    next
      case (Cons r rs)
      then have "pop (s\<lparr>source := src, stagingBuffer := r # rs, needRefill := False,
                    batchReads := batchReads s + 1\<rparr>) = (out, s')"
        using assms(1) open_s refill Some a by (simp add: FileCursor_Next_def)
      from pop_counters [OF this] assms(2) show ?thesis by simp
    qed
  qed
qed

lemma Next_counters:
  assumes "releases c = (if is_closed c then (1, 1) else (0, 0))"
  shows "releases (snd (Next c)) = (if is_closed (snd (Next c)) then (1, 1) else (0, 0))"
proof (cases c)
  case (Stream s)
  obtain out s' where n: "StreamCursor_Next s = (out, s')" by (cases "StreamCursor_Next s")
  show ?thesis
    using StreamCursor_Next_counters [OF n] assms Stream n by simp
next
  case (File s)
  obtain out s' where n: "FileCursor_Next s = (out, s')" by (cases "FileCursor_Next s")
  show ?thesis
    using FileCursor_Next_counters [OF n] assms File n by simp
qed

lemma Close_counters:
  assumes "releases c = (if is_closed c then (1, 1) else (0, 0))"
  shows "releases (snd (Close c)) = (1, 1)"
  using assms by (cases c) (auto simp: release_def split: if_splits)

lemma apply_op_counters:
  assumes "releases c = (if is_closed c then (1, 1) else (0, 0))"
  shows "releases (apply_op x c) = (if is_closed (apply_op x c) then (1, 1) else (0, 0))"
proof (cases x)
  case DoNext
  then show ?thesis using Next_counters [OF assms] by simp
next
  case DoColumns
  then show ?thesis using assms by simp
next
  case DoClose
  then show ?thesis using Close_counters [OF assms] is_closed_Close [of c] by simp
qed

lemma run_counters:
  "releases c = (if is_closed c then (1, 1) else (0, 0)) \<Longrightarrow>
   releases (run ops c) = (if is_closed (run ops c) then (1, 1) else (0, 0))"
proof (induction ops arbitrary: c)
  case Nil
  then show ?case by simp
next
  case (Cons x ops)
  show ?case
    using Cons.IH [OF apply_op_counters [OF Cons.prems]] by simp
qed

lemma fresh_counters: "fresh c \<Longrightarrow> releases c = (0, 0) \<and> \<not> is_closed c"
proof (cases c)
  case (Stream s)
  assume "fresh c"
  then have "s = open_stream (columns s) (container s)" using Stream by simp
  then have "closed s = False \<and> reader_released s = 0 \<and> buffer_released s = 0"
    by (metis (no_types) open_stream_def core.select_convs(3,4,5))
  then show ?thesis using Stream by simp
next
  case (File s)
  assume "fresh c"
  then have "s = open_file (columns s) (source s) (bufferSize s) (zeroCopyStrings s)"
    using File by simp
  then have "closed s = False \<and> reader_released s = 0 \<and> buffer_released s = 0"
    by (metis (no_types) open_file_def core.select_convs(3,4,5))
  then show ?thesis using File by simp
qed

subsection \<open>Pulling\<close>

lemma pull_add:
  "pull step (m + n) s =
     (fst (pull step m s) @ fst (pull step n (snd (pull step m s))),
      snd (pull step n (snd (pull step m s))))"
  by (induction m arbitrary: s) (simp_all split: prod.splits)


lemma pull_step:
  "pull step (Suc n) s =
     (fst (step s) # fst (pull step n (snd (step s))), snd (pull step n (snd (step s))))"
  by (simp split: prod.splits)

lemma length_pull: "length (fst (pull step n s)) = n"
  by (induction n arbitrary: s) (simp_all add: pull_step del: pull.simps(2))

lemma pull_prefix: "fst (pull step n s) = take n (fst (pull step (n + m) s))"
  by (simp add: pull_add length_pull)

lemma pull_Next_Stream:
  "pull Next n (Stream s) =
     (fst (pull StreamCursor_Next n s), Stream (snd (pull StreamCursor_Next n s)))"
  by (induction n arbitrary: s) (simp_all split: prod.splits)

lemma pull_Next_File:
  "pull Next n (File s) =
     (fst (pull FileCursor_Next n s), File (snd (pull FileCursor_Next n s)))"
  by (induction n arbitrary: s) (simp_all split: prod.splits)

subsection \<open>Stream cursor on a well-formed container\<close>

lemma fetch_no_rows: "concat bs = [] \<Longrightarrow> fetch (map Batch bs) = NoMore"
  by (induction bs) simp_all

lemma fetch_rows:
  "concat bs = r # rs \<Longrightarrow>
   \<exists>b bs'. fetch (map Batch bs) = Loaded (r # b) (map Batch bs') \<and> b @ concat bs' = rs"
proof (induction bs)
  case Nil
  then show ?case by simp
next
  case (Cons b0 bs)
  show ?case
  proof (cases b0)
    case Nil
    then show ?thesis using Cons by simp
  next
    case (Cons x xs)
    then have "x = r" and "xs @ concat bs = rs"
      using Cons.prems by simp_all
    then show ?thesis
      using Cons by (intro exI [of _ xs] exI [of _ bs]) simp
  qed
qed

lemma StreamCursor_Next_row:
  assumes "\<not> closed s" and "container s = map Batch bs"
    and "drop (rowIndex s) (batch s) @ concat bs = r # rs"
  shows "\<exists>s' bs'. StreamCursor_Next s = (Row r, s') \<and> \<not> closed s'
           \<and> container s' = map Batch bs'
           \<and> drop (rowIndex s') (batch s') @ concat bs' = rs"
proof (cases "rowIndex s < length (batch s)")
  case True
  then have d: "drop (rowIndex s) (batch s) =
      batch s ! rowIndex s # drop (Suc (rowIndex s)) (batch s)"
    by (simp add: Cons_nth_drop_Suc)
  with assms(3) have "batch s ! rowIndex s = r"
    and "drop (Suc (rowIndex s)) (batch s) @ concat bs = rs"
    by simp_all
  then show ?thesis
    using True assms(1,2) by (auto simp: StreamCursor_Next_def)
next
  case False
  then have "concat bs = r # rs" using assms(3) by simp
  from fetch_rows [OF this] obtain b bs'
    where f: "fetch (map Batch bs) = Loaded (r # b) (map Batch bs')"
      and rest: "b @ concat bs' = rs"
    by blast
  show ?thesis
    using False assms(1,2) f rest by (auto simp: StreamCursor_Next_def)
qed

lemma StreamCursor_Next_end:
  assumes "\<not> closed s" and "container s = map Batch bs"
    and "drop (rowIndex s) (batch s) @ concat bs = []"
  shows "\<exists>s'. StreamCursor_Next s = (EndOfData, s') \<and> \<not> closed s'
           \<and> container s' = map Batch []
           \<and> drop (rowIndex s') (batch s') @ concat [] = []"
proof -
  have "\<not> rowIndex s < length (batch s)" and "concat bs = []"
    using assms(3) by simp_all
  then show ?thesis
    using assms(1,2) by (simp add: StreamCursor_Next_def fetch_no_rows)
qed

lemma stream_tail:
  assumes "\<not> closed s" and "container s = map Batch bs"
    and "drop (rowIndex s) (batch s) @ concat bs = []"
  shows "fst (pull StreamCursor_Next k s) = replicate k EndOfData"
  using assms
proof (induction k arbitrary: s bs)
  case 0
  then show ?case by simp
next
  case (Suc k)
  from StreamCursor_Next_end [OF Suc.prems] obtain s'
    where n: "StreamCursor_Next s = (EndOfData, s')" and c: "\<not> closed s'"
      and w: "container s' = map Batch []"
      and e: "drop (rowIndex s') (batch s') @ concat [] = []"
    by blast
  from Suc.IH [OF c w e] show ?case
    using n by (simp add: pull_step del: pull.simps)
qed

lemma stream_rows:
  assumes "\<not> closed s" and "container s = map Batch bs"
    and "drop (rowIndex s) (batch s) @ concat bs = xs"
  shows "fst (pull StreamCursor_Next (length xs + k) s) = map Row xs @ replicate k EndOfData"
  using assms
proof (induction xs arbitrary: s bs)
  case Nil
  then show ?case using stream_tail [of s bs k] by simp
next
  case (Cons r rs)
  from StreamCursor_Next_row [OF Cons.prems] obtain s' bs'
    where n: "StreamCursor_Next s = (Row r, s')" and c: "\<not> closed s'"
      and w: "container s' = map Batch bs'"
      and e: "drop (rowIndex s') (batch s') @ concat bs' = rs"
    by blast
  from Cons.IH [OF c w e] show ?case
    using n by (simp add: pull_step del: pull.simps)
qed

lemma stream_pull_rows:
  "fst (pull StreamCursor_Next (length (concat bs) + k) (open_stream cols (map Batch bs)))
     = map Row (concat bs) @ replicate k EndOfData"
  by (rule stream_rows) (simp_all add: open_stream_def)

text \<open>
  \<^bold>\<open>C1.\<close> Modelled from the spec. A well-formed stream container is a sequence of batches
  \<open>bs\<close>, empty batches included; its rows are \<open>concat bs\<close>, \<open>N\<close> of them. The first
  \<open>N\<close> calls of \<open>Next\<close> return these rows, each once and in order, and every later
  call returns \<open>EndOfData\<close>; so the first \<open>n\<close> calls return the first \<open>n\<close> elements of
  the rows followed by \<open>EndOfData\<close> forever.
\<close>

theorem stream_cursor_delivers_each_row_once:
  "fst (pull Next (length (concat bs) + k) (Stream (open_stream cols (map Batch bs))))
     = map Row (concat bs) @ replicate k EndOfData
   \<and> fst (pull Next n (Stream (open_stream cols (map Batch bs))))
     = take n (map Row (concat bs) @ replicate n EndOfData)"
proof -
  have a: "fst (pull Next (length (concat bs) + k) (Stream (open_stream cols (map Batch bs))))
     = map Row (concat bs) @ replicate k EndOfData" for k
    by (simp add: pull_Next_Stream stream_pull_rows)
  have "fst (pull Next n (Stream (open_stream cols (map Batch bs))))
     = take n (fst (pull Next (n + length (concat bs)) (Stream (open_stream cols (map Batch bs)))))"
    by (rule pull_prefix)
  also have "n + length (concat bs) = length (concat bs) + n"
    by simp
  finally have b: "fst (pull Next n (Stream (open_stream cols (map Batch bs))))
     = take n (map Row (concat bs) @ replicate n EndOfData)"
    unfolding a .
  show ?thesis
    using a b by (intro conjI)
qed

theorem stream_cursor_delivers_each_row_once_witness:
  "fst (pull Next 5
          (Stream (open_stream [''n''] [Batch [1, 2], Batch [], Batch [3 :: nat]])))
     = [Row 1, Row 2, Row 3, EndOfData, EndOfData]"
proof -
  have n: "length (concat [[1, 2], [], [3 :: nat]]) + 2 = 5"
    by simp
  have r: "map Row (concat [[1, 2], [], [3 :: nat]]) @ replicate 2 EndOfData
      = [Row 1, Row 2, Row 3, EndOfData, EndOfData]"
    by (simp add: numeral_2_eq_2)
  have m: "map Batch [[1, 2], [], [3 :: nat]] = [Batch [1, 2], Batch [], Batch [3]]"
    by simp
  show ?thesis
    using stream_cursor_delivers_each_row_once [of "[[1, 2], [], [3 :: nat]]" 2 "[''n'']" 0,
        THEN conjunct1]
    unfolding n r m .
qed

subsection \<open>File cursor on a well-formed container\<close>











lemma pop_staged: "staged s \<Longrightarrow> staged (snd (pop s))"
  by (auto simp: pop_def staged_def release_def split: list.splits)

lemma FileCursor_Next_staged_inv: "staged s \<Longrightarrow> staged (snd (FileCursor_Next s))"
  by (auto simp: FileCursor_Next_def staged_def release_def pop_def
        split: option.splits list.splits)

lemma staged_open_file: "staged (open_file cols items capacity zeroCopy)"
  by (simp add: staged_def open_file_def)

lemma staged_after_pull: "staged s \<Longrightarrow> staged (snd (pull FileCursor_Next n s))"
  by (induction n arbitrary: s)
    (simp_all add: pull_step FileCursor_Next_staged_inv del: pull.simps(2))




subsection \<open>The contract after Close\<close>

text \<open>
  \<^bold>\<open>C3.\<close> Modelled from the spec. For every cursor of either variant, in whatever state:
  once \<open>Close\<close> has been called, any further sequence of operations leaves the cursor
  as it is, and \<open>Next\<close> returns the "cursor closed" failure \<open>UseAfterClose\<close>, which is
  neither \<open>EndOfData\<close> nor a row.
\<close>

theorem Next_after_Close_reports_UseAfterClose:
  "Next (run ops (snd (Close c))) = (Failed UseAfterClose, snd (Close c))
   \<and> run ops (snd (Close c)) = snd (Close c)"
  using is_closed_Close [of c]
  by (simp add: run_closed Next_closed)

theorem Next_after_Close_reports_UseAfterClose_witness:
  "Next (run [DoNext, DoColumns, DoClose]
           (snd (Close (File (open_file [''n''] [Good (7 :: nat)] 1 False)))))
     = (Failed UseAfterClose, snd (Close (File (open_file [''n''] [Good (7 :: nat)] 1 False))))
   \<and> run [DoNext, DoColumns, DoClose]
           (snd (Close (File (open_file [''n''] [Good (7 :: nat)] 1 False))))
     = snd (Close (File (open_file [''n''] [Good (7 :: nat)] 1 False)))"
  by (rule Next_after_Close_reports_UseAfterClose)

text \<open>
  \<^bold>\<open>C4.\<close> Modelled from the spec. Take a cursor of either variant as constructed, and run
  any operations on it. Then \<open>Close\<close> returns success; the reader and the result buffer
  have been released once each if the cursor is closed and not at all if it is open,
  so the call of \<open>Close\<close> that finds it open performs the release; after \<open>Close\<close>
  both have been released exactly once; a second \<open>Close\<close> returns success and changes
  nothing; and no later operation releases anything again.
\<close>

theorem Close_is_idempotent:
  assumes "fresh c"
  shows "fst (Close (run ops c)) = None
       \<and> releases (run ops c) = (if is_closed (run ops c) then (1, 1) else (0, 0))
       \<and> releases (snd (Close (run ops c))) = (1, 1)
       \<and> Close (snd (Close (run ops c))) = (None, snd (Close (run ops c)))
       \<and> releases (run later_ops (snd (Close (run ops c)))) = (1, 1)"
proof -
  have inv0: "releases c = (if is_closed c then (1, 1) else (0, 0))"
    using fresh_counters [OF assms] by simp
  have inv: "releases (run ops c) = (if is_closed (run ops c) then (1, 1) else (0, 0))"
    by (rule run_counters [OF inv0])
  have ok: "fst (Close (run ops c)) = None"
    by (cases "run ops c") simp_all
  have once: "releases (snd (Close (run ops c))) = (1, 1)"
    by (rule Close_counters [OF inv])
  have again: "Close (snd (Close (run ops c))) = (None, snd (Close (run ops c)))"
    by (rule Close_closed [OF is_closed_Close])
  have after: "releases (run later_ops (snd (Close (run ops c)))) = (1, 1)"
    using once by (simp add: run_closed [OF is_closed_Close])
  show ?thesis
    using ok inv once again after by (intro conjI)
qed

theorem Close_is_idempotent_witness:
  "fresh (Stream (open_stream [''n''] [Batch [7 :: nat], Corrupt]))
   \<and> fst (Close (run [DoNext, DoNext] (Stream (open_stream [''n''] [Batch [7 :: nat], Corrupt]))))
       = None
   \<and> is_closed (run [DoNext, DoNext] (Stream (open_stream [''n''] [Batch [7 :: nat], Corrupt])))
   \<and> releases (run [DoNext, DoNext]
         (Stream (open_stream [''n''] [Batch [7 :: nat], Corrupt]))) = (1, 1)
   \<and> releases (snd (Close (run [DoNext, DoNext]
         (Stream (open_stream [''n''] [Batch [7 :: nat], Corrupt]))))) = (1, 1)"
proof -
  let ?c = "Stream (open_stream [''n''] [Batch [7 :: nat], Corrupt])"
  have h: "fresh ?c" by (simp add: open_stream_def)
  have o: "is_closed (run [DoNext, DoNext] ?c)" by code_simp
  note T = Close_is_idempotent [OF h, of "[DoNext, DoNext]" "[]"]
  have a: "fst (Close (run [DoNext, DoNext] ?c)) = None"
    using T by blast
  have b: "releases (run [DoNext, DoNext] ?c) = (1, 1)"
    using T o by presburger
  have c: "releases (snd (Close (run [DoNext, DoNext] ?c))) = (1, 1)"
    using T by blast
  show ?thesis
    by (intro conjI h a o b c)
qed

end
